theory Spec2Isabelle
  imports Complex_Main
begin

section \<open>The orchestration core: agent tracker and funding protocol\<close>

text \<open>
  A shallow embedding of \<^verbatim>\<open>src/orchestration/simple-tracker.ts\<close>: the class
  \<^verbatim>\<open>SimpleAgentTracker\<close> over the persistent store, the class
  \<^verbatim>\<open>SimpleFundingProtocol\<close> over the remote credits client, and the function
  \<^verbatim>\<open>isTransferSuccessful\<close>.
\<close>

subsection \<open>JavaScript numbers\<close>

text \<open>
  A value of the type \<^verbatim>\<open>number\<close> is a finite number, NaN or one of the two
  infinities. A finite number is modelled by the real it denotes: \<^verbatim>\<open>Math.floor\<close>,
  \<^verbatim>\<open>Math.max\<close> and \<^verbatim>\<open>===\<close> are exact on doubles, and the two zeros are
  equal under \<^verbatim>\<open>===\<close>, so nothing the code below computes depends on rounding.
\<close>

datatype number = Num real | NaN | PosInfinity | NegInfinity

fun Math_floor :: "number \<Rightarrow> number" where
  "Math_floor (Num r) = Num (of_int \<lfloor>r\<rfloor>)"
| "Math_floor NaN = NaN"
| "Math_floor PosInfinity = PosInfinity"
| "Math_floor NegInfinity = NegInfinity"

fun Math_max :: "number \<Rightarrow> number \<Rightarrow> number" where
  "Math_max NaN _ = NaN"
| "Math_max _ NaN = NaN"
| "Math_max PosInfinity _ = PosInfinity"
| "Math_max _ PosInfinity = PosInfinity"
| "Math_max NegInfinity y = y"
| "Math_max x NegInfinity = x"
| "Math_max (Num a) (Num b) = Num (max a b)"

text \<open>The operator \<^verbatim>\<open>===\<close> on two numbers: NaN equals nothing, itself included.\<close>

fun strict_equals :: "number \<Rightarrow> number \<Rightarrow> bool" where
  "strict_equals NaN _ = False"
| "strict_equals _ NaN = False"
| "strict_equals x y = (x = y)"

text \<open>The numbers that are non-negative integers (what an amount of cents should be).\<close>

fun isNonNegativeInteger :: "number \<Rightarrow> bool" where
  "isNonNegativeInteger (Num r) = (0 \<le> r \<and> of_int \<lfloor>r\<rfloor> = r)"
| "isNonNegativeInteger _ = False"

subsection \<open>JavaScript strings\<close>

text \<open>
  A string is the list of its code units. The model covers the code units below 256
  (Latin-1), which \<^typ>\<open>char\<close> holds: \<^verbatim>\<open>trim\<close> removes the white space and line
  terminators of ECMAScript in that range (TAB, LF, VT, FF, CR, SP, NBSP) from both
  ends, and \<^verbatim>\<open>toLowerCase\<close> maps A-Z and the upper-case letters of Latin-1
  (U+00C0-U+00DE without U+00D7) to their lower-case forms.
\<close>

definition isWhiteSpace :: "char \<Rightarrow> bool" where
  "isWhiteSpace c = (of_char c \<in> {9, 10, 11, 12, 13, 32, 160 :: nat})"

definition trim :: "string \<Rightarrow> string" where
  "trim s = rev (dropWhile isWhiteSpace (rev (dropWhile isWhiteSpace s)))"

definition toLowerCase_unit :: "char \<Rightarrow> char" where
  "toLowerCase_unit c =
     (let n = (of_char c :: nat) in
      if (65 \<le> n \<and> n \<le> 90) \<or> (192 \<le> n \<and> n \<le> 222 \<and> n \<noteq> 215)
      then char_of (n + 32) else c)"

definition toLowerCase :: "string \<Rightarrow> string" where
  "toLowerCase s = map toLowerCase_unit s"

fun startsWith :: "string \<Rightarrow> string \<Rightarrow> bool" where
  "startsWith _ [] = True"
| "startsWith [] (_ # _) = False"
| "startsWith (c # cs) (p # ps) = (c = p \<and> startsWith cs ps)"

text \<open>\<^verbatim>\<open>s.includes(sub)\<close>: \<open>sub\<close> starts at some position of \<open>s\<close>.\<close>

fun str_includes :: "string \<Rightarrow> string \<Rightarrow> bool" where
  "str_includes [] sub = (sub = [])"
| "str_includes (c # cs) sub = (startsWith (c # cs) sub \<or> str_includes cs sub)"

subsection \<open>The success classifier\<close>

definition isTransferSuccessful :: "string \<Rightarrow> bool" where
  "isTransferSuccessful status =
     (let normalized = toLowerCase (trim status) in
      length normalized > 0
      \<and> \<not> str_includes normalized ''fail''
      \<and> \<not> str_includes normalized ''error''
      \<and> \<not> str_includes normalized ''reject'')"

subsection \<open>Exceptions\<close>

text \<open>
  A thrown value. A function that may throw returns \<open>Inl\<close> of the value thrown or
  \<open>Inr\<close> of its result.
\<close>

datatype exn = Exn string

subsection \<open>The persistent store\<close>

text \<open>
  Modelled from the spec: the type \<^verbatim>\<open>Child\<close> of \<^verbatim>\<open>types.ts\<close> is not among the
  sources. The agent record of the spec has an identifier, a display name, an address, a
  sandbox identifier, a role label that may be unset, a lifecycle status, a funded-amount
  accumulator, a creation timestamp and the genesis and creator texts. The status is the
  string the store holds.
\<close>

record Child =
  c_id :: string
  c_name :: string
  c_address :: string
  c_sandboxId :: string
  c_genesisPrompt :: string
  c_creatorMessage :: string
  c_fundedAmountCents :: number
  c_status :: string
  c_createdAt :: string
  c_role :: "string option"

text \<open>
  A row of the table \<^verbatim>\<open>task_graph\<close>, with the two columns the tracker reads:
  \<^verbatim>\<open>assigned_to\<close> is nullable.
\<close>

record Task =
  t_assigned_to :: "string option"
  t_status :: string

text \<open>The store: the two tables, each the list of its rows in the store's order.\<close>

record AutomatonDatabase =
  children :: "Child list"
  task_graph :: "Task list"

text \<open>
  The three operations of the database module that the tracker calls are not among the
  sources. A store that cannot be reached is outside the model; the rejection of an
  insert by the store is in it.
\<close>

text \<open>
  Modelled from the spec: \<^verbatim>\<open>getChildren\<close> of the database module, which the spec
  gives as the lookup of all agents.
\<close>

definition getChildren :: "AutomatonDatabase \<Rightarrow> Child list" where
  "getChildren db = children db"

text \<open>
  Modelled from the spec: \<^verbatim>\<open>updateChildStatus\<close> of the database module, which the
  spec gives as the update of an agent's status by id.
\<close>

definition updateChildStatus :: "AutomatonDatabase \<Rightarrow> string \<Rightarrow> string \<Rightarrow> AutomatonDatabase" where
  "updateChildStatus db cid st =
     db\<lparr>children := map (\<lambda>c. if c_id c = cid then c\<lparr>c_status := st\<rparr> else c) (children db)\<rparr>"

text \<open>
  Modelled from the spec: \<^verbatim>\<open>insertChild\<close> of the database module, which the spec
  gives as the insert of a new agent record. In the spec the identifier and the address
  of an agent record are unique, and the store rejects an insert that breaks this (the
  spec's example is a duplicate address): the insert raises and the store keeps its
  rows. An accepted record becomes the last row of the table.
\<close>

definition insertChild :: "AutomatonDatabase \<Rightarrow> Child \<Rightarrow> exn + AutomatonDatabase" where
  "insertChild db c =
     (if c_id c \<in> c_id ` set (children db) \<or> c_address c \<in> c_address ` set (children db)
      then Inl (Exn ''UNIQUE constraint failed'')
      else Inr (db\<lparr>children := children db @ [c]\<rparr>))"

subsection \<open>The agent tracker\<close>

definition IDLE_STATUSES :: "string set" where
  "IDLE_STATUSES = {''running'', ''healthy''}"

text \<open>
  The first query of \<^verbatim>\<open>getIdle\<close>:
  \<^verbatim>\<open>SELECT DISTINCT assigned_to AS address FROM task_graph
  WHERE assigned_to IS NOT NULL AND status IN ('assigned', 'running')\<close>.
\<close>

definition assignedRows :: "AutomatonDatabase \<Rightarrow> string option list" where
  "assignedRows db =
     remdups (map t_assigned_to
       (filter (\<lambda>t. t_assigned_to t \<noteq> None \<and> t_status t \<in> {''assigned'', ''running''})
         (task_graph db)))"

text \<open>
  The set built from the rows: a value is kept when it is a string
  (\<^verbatim>\<open>typeof value === "string"\<close>) of positive length.
\<close>

definition assignedAddresses :: "AutomatonDatabase \<Rightarrow> string set" where
  "assignedAddresses db =
     set (List.map_filter
       (\<lambda>value. case value of
          None \<Rightarrow> None
        | Some s \<Rightarrow> if length s > 0 then Some s else None)
       (assignedRows db))"

text \<open>
  The second query:
  \<^verbatim>\<open>SELECT id, name, address, status, COALESCE(role, 'generalist') AS role
  FROM children WHERE status IN ('running', 'healthy')\<close>.
\<close>

record ChildRow =
  r_id :: string
  r_name :: string
  r_address :: string
  r_status :: string
  r_role :: string

definition selectChildren :: "AutomatonDatabase \<Rightarrow> ChildRow list" where
  "selectChildren db =
     map (\<lambda>c. \<lparr>r_id = c_id c, r_name = c_name c, r_address = c_address c,
               r_status = c_status c,
               r_role = (case c_role c of None \<Rightarrow> ''generalist'' | Some r \<Rightarrow> r)\<rparr>)
       (filter (\<lambda>c. c_status c \<in> {''running'', ''healthy''}) (children db))"

record IdleAgent =
  i_address :: string
  i_name :: string
  i_role :: string
  i_status :: string

definition getIdle :: "AutomatonDatabase \<Rightarrow> IdleAgent list" where
  "getIdle db =
     map (\<lambda>child. \<lparr>i_address = r_address child, i_name = r_name child,
                   i_role = r_role child, i_status = r_status child\<rparr>)
       (filter (\<lambda>child. r_status child \<in> IDLE_STATUSES
                        \<and> r_address child \<notin> assignedAddresses db)
         (selectChildren db))"

record BestAgent =
  b_address :: string
  b_name :: string

text \<open>The result \<^verbatim>\<open>null\<close> is \<open>None\<close>. The role is not read.\<close>

definition getBestForTask :: "AutomatonDatabase \<Rightarrow> string \<Rightarrow> BestAgent option" where
  "getBestForTask db role =
     (let idle = getIdle db in
      if length idle = 0 then None
      else Some \<lparr>b_address = i_address (idle ! 0), b_name = i_name (idle ! 0)\<rparr>)"

text \<open>\<^verbatim>\<open>updateStatus\<close> returns the store it leaves behind.\<close>

definition updateStatus :: "AutomatonDatabase \<Rightarrow> string \<Rightarrow> string \<Rightarrow> AutomatonDatabase" where
  "updateStatus db address status =
     (case find (\<lambda>entry. c_address entry = address) (getChildren db) of
        None \<Rightarrow> db
      | Some child \<Rightarrow> updateChildStatus db (c_id child) status)"



text \<open>
  What it would take of a generator for every identifier to be fresh, over the set
  \<open>issued g\<close> of the identifiers generated before the state \<open>g\<close>: each call returns a
  non-empty identifier that was not generated before, and records it.
\<close>

definition fresh_ids :: "('g \<Rightarrow> string \<times> 'g) \<Rightarrow> ('g \<Rightarrow> string set) \<Rightarrow> bool" where
  "fresh_ids ulid issued =
     (\<forall>g. fst (ulid g) \<noteq> [] \<and> fst (ulid g) \<notin> issued g
          \<and> issued (snd (ulid g)) = insert (fst (ulid g)) (issued g))"

subsection \<open>The funding protocol\<close>

text \<open>
  Modelled from the spec: the result type of \<^verbatim>\<open>transferCredits\<close> is declared in
  \<^verbatim>\<open>types.ts\<close>, which is not among the sources. The spec gives it as
  \<^verbatim>\<open>{status: string, amountCents?: number}\<close>.
\<close>

record TransferResult =
  tr_status :: string
  tr_amountCents :: "number option"

text \<open>
  Modelled from the spec: the interface \<^verbatim>\<open>ConwayClient\<close> is declared in
  \<^verbatim>\<open>types.ts\<close> too. The spec gives the two operations the code calls, each
  asynchronous and free to raise. The client is a parameter: its operations are step
  functions on a client state \<open>'s\<close>, and each returns a value or raises (\<open>Inl\<close>).
\<close>

record 's ConwayClient =
  transferCredits :: "'s \<Rightarrow> string \<Rightarrow> number \<Rightarrow> string \<Rightarrow> (exn + TransferResult) \<times> 's"
  getCreditsBalance :: "'s \<Rightarrow> (exn + number) \<times> 's"

text \<open>
  Modelled from the spec: \<^verbatim>\<open>AutomatonIdentity\<close> is declared in \<^verbatim>\<open>types.ts\<close>; the
  code reads its address only.
\<close>

record AutomatonIdentity =
  identity_address :: string

text \<open>
  The world of an operation: the state of the remote client and the log of the calls
  made to it, in order. An asynchronous operation takes the world and returns its outcome
  (the value of the promise, or the exception it rejects with) and the world it leaves.
\<close>

datatype remote_call = TransferCredits string number string | GetCreditsBalance

record 's world =
  remote :: 's
  calls :: "remote_call list"

type_synonym ('s, 'a) promise = "'s world \<Rightarrow> (exn + 'a) \<times> 's world"

definition resolve :: "'a \<Rightarrow> ('s, 'a) promise" where
  "resolve v = (\<lambda>w. (Inr v, w))"

definition await :: "('s, 'a) promise \<Rightarrow> ('a \<Rightarrow> ('s, 'b) promise) \<Rightarrow> ('s, 'b) promise" where
  "await m k = (\<lambda>w. case m w of (Inl e, w') \<Rightarrow> (Inl e, w') | (Inr v, w') \<Rightarrow> k v w')"

definition try_catch :: "('s, 'a) promise \<Rightarrow> ('s, 'a) promise \<Rightarrow> ('s, 'a) promise" where
  "try_catch body handler =
     (\<lambda>w. case body w of (Inl e, w') \<Rightarrow> handler w' | (Inr v, w') \<Rightarrow> (Inr v, w'))"

definition conway_transferCredits ::
  "'s ConwayClient \<Rightarrow> string \<Rightarrow> number \<Rightarrow> string \<Rightarrow> ('s, TransferResult) promise" where
  "conway_transferCredits conway toAddress amount memo = (\<lambda>w.
     case transferCredits conway (remote w) toAddress amount memo of
       (r, s') \<Rightarrow> (r, \<lparr>remote = s', calls = calls w @ [TransferCredits toAddress amount memo]\<rparr>))"

definition conway_getCreditsBalance :: "'s ConwayClient \<Rightarrow> ('s, number) promise" where
  "conway_getCreditsBalance conway = (\<lambda>w.
     case getCreditsBalance conway (remote w) of
       (r, s') \<Rightarrow> (r, \<lparr>remote = s', calls = calls w @ [GetCreditsBalance]\<rparr>))"

record FundResult =
  f_success :: bool

record RecallResult =
  rc_success :: bool
  rc_amountCents :: number

definition fundChild :: "'s ConwayClient \<Rightarrow> string \<Rightarrow> number \<Rightarrow> ('s, FundResult) promise" where
  "fundChild conway childAddress amountCents =
     (let transferAmount = Math_max (Num 0) (Math_floor amountCents) in
      if strict_equals transferAmount (Num 0) then resolve \<lparr>f_success = True\<rparr>
      else
        try_catch
          (await (conway_transferCredits conway childAddress transferAmount
                    ''Task funding from orchestrator'')
             (\<lambda>result. resolve \<lparr>f_success = isTransferSuccessful (tr_status result)\<rparr>))
          (resolve \<lparr>f_success = False\<rparr>))"

definition getBalance :: "'s ConwayClient \<Rightarrow> string \<Rightarrow> ('s, number) promise" where
  "getBalance conway childAddress = conway_getCreditsBalance conway"

text \<open>The operator \<^verbatim>\<open>??\<close>: the left value unless it is absent.\<close>

definition nullish :: "'a option \<Rightarrow> 'a \<Rightarrow> 'a" where
  "nullish v d = (case v of None \<Rightarrow> d | Some x \<Rightarrow> x)"

definition recallCredits ::
  "'s ConwayClient \<Rightarrow> AutomatonIdentity \<Rightarrow> string \<Rightarrow> ('s, RecallResult) promise" where
  "recallCredits conway identity childAddress =
     await (getBalance conway childAddress) (\<lambda>balance.
       let amountCents = Math_max (Num 0) (Math_floor balance) in
       if strict_equals amountCents (Num 0)
       then resolve \<lparr>rc_success = True, rc_amountCents = Num 0\<rparr>
       else
         try_catch
           (await (conway_transferCredits conway (identity_address identity) amountCents
                     (''Recall credits from '' @ childAddress))
              (\<lambda>result. resolve
                 \<lparr>rc_success = isTransferSuccessful (tr_status result),
                  rc_amountCents = nullish (tr_amountCents result) amountCents\<rparr>))
           (resolve \<lparr>rc_success = False, rc_amountCents = Num 0\<rparr>))"

subsection \<open>What the properties are stated with\<close>

text \<open>
  What \<^verbatim>\<open>getIdle\<close> reports of an agent record: the four fields of the result, the
  role read through \<^verbatim>\<open>COALESCE(role, 'generalist')\<close>.
\<close>

definition idleView :: "Child \<Rightarrow> IdleAgent" where
  "idleView c =
     \<lparr>i_address = c_address c, i_name = c_name c,
      i_role = (case c_role c of None \<Rightarrow> ''generalist'' | Some r \<Rightarrow> r),
      i_status = c_status c\<rparr>"

text \<open>
  The words of the spec, not the code: the address \<open>a\<close> is the assignment target of
  some task whose status is \<open>assigned\<close> or \<open>running\<close>.
\<close>

definition isAssignmentTarget :: "AutomatonDatabase \<Rightarrow> string \<Rightarrow> bool" where
  "isAssignmentTarget db a =
     list_ex (\<lambda>t. t_assigned_to t = Some a \<and> t_status t \<in> {''assigned'', ''running''})
       (task_graph db)"

subsection \<open>Example stores, generators and clients\<close>

definition mkChild :: "string \<Rightarrow> string \<Rightarrow> string \<Rightarrow> string \<Rightarrow> string option \<Rightarrow> Child" where
  "mkChild cid nm addr st rl =
     \<lparr>c_id = cid, c_name = nm, c_address = addr, c_sandboxId = ''sbx-'' @ nm,
      c_genesisPrompt = ''Role: generalist'', c_creatorMessage = ''registered by orchestrator'',
      c_fundedAmountCents = Num 0, c_status = st,
      c_createdAt = ''2026-01-01T00:00:00.000Z'', c_role = rl\<rparr>"

text \<open>An agent registered with the empty address, and a task assigned to the empty address.\<close>

definition blank_agent :: Child where
  "blank_agent = mkChild ''01A'' ''blank'' [] ''running'' None"

definition db_blank :: AutomatonDatabase where
  "db_blank =
     \<lparr>children = [blank_agent],
      task_graph = [\<lparr>t_assigned_to = Some [], t_status = ''assigned''\<rparr>]\<rparr>"

text \<open>A pool of three agents: one stopped, one busy, one idle.\<close>

definition alpha :: Child where
  "alpha = mkChild ''01B'' ''alpha'' ''0xaaa'' ''healthy'' (Some ''coder'')"

definition beta :: Child where
  "beta = mkChild ''01C'' ''beta'' ''0xbbb'' ''running'' None"

definition gamma :: Child where
  "gamma = mkChild ''01D'' ''gamma'' ''0xccc'' ''dead'' None"

definition db_pool :: AutomatonDatabase where
  "db_pool =
     \<lparr>children = [gamma, beta, alpha],
      task_graph =
        [\<lparr>t_assigned_to = Some ''0xbbb'', t_status = ''running''\<rparr>,
         \<lparr>t_assigned_to = None, t_status = ''pending''\<rparr>,
         \<lparr>t_assigned_to = Some ''0xaaa'', t_status = ''completed''\<rparr>]\<rparr>"





text \<open>
  A generator whose identifiers never repeat: the state counts the calls, and the
  identifier of call \<open>n\<close> is \<open>n + 1\<close> zeros.
\<close>

definition counter_ulid :: "nat \<Rightarrow> string \<times> nat" where
  "counter_ulid n = (replicate (Suc n) CHR ''0'', Suc n)"

definition counter_issued :: "nat \<Rightarrow> string set" where
  "counter_issued n = (\<lambda>k. replicate (Suc k) CHR ''0'') ` {..<n}"


text \<open>
  A client whose state is the balance it reports, and whose transfers answer with the
  given status and the given reported amount; and a client that cannot be reached.
\<close>

definition scripted_client :: "string \<Rightarrow> number option \<Rightarrow> number ConwayClient" where
  "scripted_client st reported =
     \<lparr>transferCredits = (\<lambda>s toAddress amount memo.
        (Inr \<lparr>tr_status = st, tr_amountCents = reported\<rparr>, s)),
      getCreditsBalance = (\<lambda>s. (Inr s, s))\<rparr>"

definition offline_client :: "number ConwayClient" where
  "offline_client =
     \<lparr>transferCredits = (\<lambda>s toAddress amount memo. (Inl (Exn ''ECONNREFUSED''), s)),
      getCreditsBalance = (\<lambda>s. (Inl (Exn ''ECONNREFUSED''), s))\<rparr>"

definition orchestrator :: AutomatonIdentity where
  "orchestrator = \<lparr>identity_address = ''0x0rc''\<rparr>"

definition world0 :: "number \<Rightarrow> number world" where
  "world0 balance = \<lparr>remote = balance, calls = []\<rparr>"

section \<open>Properties\<close>

subsection \<open>The success classifier\<close>

lemma startsWith_iff: "startsWith s p \<longleftrightarrow> (\<exists>q. s = p @ q)"
  by (induction s p rule: startsWith.induct) auto

lemma str_includes_iff: "str_includes s sub \<longleftrightarrow> (\<exists>p q. s = p @ sub @ q)"
proof (induction s)
  case Nil
  then show ?case by simp
next
  case (Cons c cs)
  show ?case
  proof
    assume "str_includes (c # cs) sub"
    then consider "startsWith (c # cs) sub" | "str_includes cs sub" by auto
    then show "\<exists>p q. c # cs = p @ sub @ q"
    proof cases
      case 1
      then obtain q where "c # cs = sub @ q" by (auto simp: startsWith_iff)
      then have "c # cs = [] @ sub @ q" by simp
      then show ?thesis by blast
    next
      case 2
      then obtain p q where "cs = p @ sub @ q" using Cons.IH by blast
      then have "c # cs = (c # p) @ sub @ q" by simp
      then show ?thesis by blast
    qed
  next
    assume "\<exists>p q. c # cs = p @ sub @ q"
    then obtain p q where pq: "c # cs = p @ sub @ q" by blast
    show "str_includes (c # cs) sub"
    proof (cases p)
      case Nil
      with pq have "startsWith (c # cs) sub" by (auto simp: startsWith_iff)
      then show ?thesis by simp
    next
      case (Cons a p')
      with pq have "cs = p' @ sub @ q" by simp
      then have "str_includes cs sub" using Cons.IH by blast
      then show ?thesis by simp
    qed
  qed
qed

text \<open>
  Claim C3. For every status string \<open>s\<close>, the classifier reports a failure if and only
  if the string, trimmed and lower-cased, is empty or has \<open>fail\<close>, \<open>error\<close> or
  \<open>reject\<close> as a substring (it is \<open>p @ sub @ q\<close> for some \<open>p\<close> and \<open>q\<close>); every
  other string is a success. The status \<open>completed\<close> is a success and
  \<open>Rejected: insufficient funds\<close> is a failure.
\<close>

theorem isTransferSuccessful_classifies:
  "(\<not> isTransferSuccessful s \<longleftrightarrow>
      (toLowerCase (trim s) = []
       \<or> (\<exists>p q. toLowerCase (trim s) = p @ ''fail'' @ q)
       \<or> (\<exists>p q. toLowerCase (trim s) = p @ ''error'' @ q)
       \<or> (\<exists>p q. toLowerCase (trim s) = p @ ''reject'' @ q)))
   \<and> isTransferSuccessful ''completed''
   \<and> \<not> isTransferSuccessful ''Rejected: insufficient funds''"
proof -
  have general: "\<not> isTransferSuccessful s \<longleftrightarrow>
      (toLowerCase (trim s) = []
       \<or> (\<exists>p q. toLowerCase (trim s) = p @ ''fail'' @ q)
       \<or> (\<exists>p q. toLowerCase (trim s) = p @ ''error'' @ q)
       \<or> (\<exists>p q. toLowerCase (trim s) = p @ ''reject'' @ q))"
    unfolding isTransferSuccessful_def Let_def str_includes_iff by auto
  have completed: "isTransferSuccessful ''completed''"
    by code_simp
  have rejected: "\<not> isTransferSuccessful ''Rejected: insufficient funds''"
    by code_simp
  from general completed rejected show ?thesis by blast
qed

theorem isTransferSuccessful_classifies_witness:
  "\<not> isTransferSuccessful ''  Transfer FAILED (timeout) ''
   \<and> \<not> isTransferSuccessful ''   ''
   \<and> toLowerCase (trim ''  Transfer FAILED (timeout) '') = ''transfer failed (timeout)''"
proof -
  have normalized:
    "toLowerCase (trim ''  Transfer FAILED (timeout) '') = ''transfer '' @ ''fail'' @ ''ed (timeout)''"
    by code_simp
  have blank: "toLowerCase (trim ''   '') = []"
    by code_simp
  from normalized have "\<not> isTransferSuccessful ''  Transfer FAILED (timeout) ''"
    using isTransferSuccessful_classifies [of "''  Transfer FAILED (timeout) ''"] by blast
  moreover from blank have "\<not> isTransferSuccessful ''   ''"
    using isTransferSuccessful_classifies [of "''   ''"] by blast
  moreover from normalized
  have "toLowerCase (trim ''  Transfer FAILED (timeout) '') = ''transfer failed (timeout)''"
    by simp
  ultimately show ?thesis by blast
qed

subsection \<open>The idle query\<close>

lemma set_map_filter_eq: "set (List.map_filter f xs) = {y. \<exists>x\<in>set xs. f x = Some y}"
  by (induction xs) (auto simp: map_filter_simps split: option.splits)

lemma set_assignedRows:
  "set (assignedRows db) =
     {Some a | a. \<exists>t\<in>set (task_graph db). t_assigned_to t = Some a
                    \<and> t_status t \<in> {''assigned'', ''running''}}"
  unfolding assignedRows_def by (auto simp: image_iff) force+

text \<open>The busy set holds the non-empty assignment targets of the active tasks.\<close>

lemma assignedAddresses_eq:
  "assignedAddresses db = {a. a \<noteq> [] \<and> isAssignmentTarget db a}"
proof (rule set_eqI)
  fix a
  have "a \<in> assignedAddresses db \<longleftrightarrow> (Some a \<in> set (assignedRows db) \<and> a \<noteq> [])"
    unfolding assignedAddresses_def set_map_filter_eq
    by (auto split: option.splits if_splits)
  also have "\<dots> \<longleftrightarrow> (a \<noteq> [] \<and> isAssignmentTarget db a)"
    unfolding set_assignedRows isAssignmentTarget_def list_ex_iff by auto
  finally show "a \<in> assignedAddresses db \<longleftrightarrow> a \<in> {a. a \<noteq> [] \<and> isAssignmentTarget db a}"
    by simp
qed

text \<open>The result is the store's agents, in the store's order, filtered and projected.\<close>

lemma getIdle_eq:
  "getIdle db =
     map idleView
       (filter (\<lambda>c. c_status c \<in> IDLE_STATUSES \<and> c_address c \<notin> assignedAddresses db)
         (children db))"
  unfolding getIdle_def selectChildren_def IDLE_STATUSES_def idleView_def
  by (simp add: filter_map o_def)

lemma getIdle_db_blank: "getIdle db_blank = [idleView blank_agent]"
  by (simp add: getIdle_def selectChildren_def assignedAddresses_def assignedRows_def
      IDLE_STATUSES_def db_blank_def blank_agent_def mkChild_def idleView_def map_filter_simps)

lemma getIdle_db_pool: "getIdle db_pool = [idleView alpha]"
  by (simp add: getIdle_def selectChildren_def assignedAddresses_def assignedRows_def
      IDLE_STATUSES_def db_pool_def alpha_def beta_def gamma_def mkChild_def idleView_def
      map_filter_simps)

text \<open>
  Claim C1, as amended. For every store and every agent record \<open>c\<close> of it, the agent
  appears in the result of \<open>getIdle\<close> if and only if its status is \<open>running\<close> or
  \<open>healthy\<close> and its address is empty or is not the assignment target of any task whose
  status is \<open>assigned\<close> or \<open>running\<close>.
\<close>

theorem getIdle_iff_idle_and_unassigned:
  assumes "c \<in> set (children db)"
  shows "idleView c \<in> set (getIdle db) \<longleftrightarrow>
           c_status c \<in> {''running'', ''healthy''}
           \<and> (c_address c = [] \<or> \<not> isAssignmentTarget db (c_address c))"
proof
  assume "idleView c \<in> set (getIdle db)"
  then obtain c' where c': "c' \<in> set (children db)" "idleView c' = idleView c"
    "c_status c' \<in> IDLE_STATUSES" "c_address c' \<notin> assignedAddresses db"
    unfolding getIdle_eq by auto
  from c'(2) have "c_status c' = c_status c" "c_address c' = c_address c"
    by (simp_all add: idleView_def)
  with c'(3,4) show "c_status c \<in> {''running'', ''healthy''}
           \<and> (c_address c = [] \<or> \<not> isAssignmentTarget db (c_address c))"
    by (auto simp: IDLE_STATUSES_def assignedAddresses_eq)
next
  assume "c_status c \<in> {''running'', ''healthy''}
           \<and> (c_address c = [] \<or> \<not> isAssignmentTarget db (c_address c))"
  with assms show "idleView c \<in> set (getIdle db)"
    unfolding getIdle_eq by (auto simp: IDLE_STATUSES_def assignedAddresses_eq)
qed

text \<open>
  In the pool the healthy, unassigned agent is idle; the agent with a running task and
  the stopped agent are not. The agent with the empty address is idle.
\<close>

theorem getIdle_iff_idle_and_unassigned_witness:
  "idleView alpha \<in> set (getIdle db_pool) \<and> idleView beta \<notin> set (getIdle db_pool)
   \<and> idleView gamma \<notin> set (getIdle db_pool) \<and> idleView blank_agent \<in> set (getIdle db_blank)"
proof -
  have a: "alpha \<in> set (children db_pool)" and b: "beta \<in> set (children db_pool)"
    and g: "gamma \<in> set (children db_pool)" by (simp_all add: db_pool_def)
  have z: "blank_agent \<in> set (children db_blank)" by (simp add: db_blank_def)
  have "idleView alpha \<in> set (getIdle db_pool)"
    using getIdle_iff_idle_and_unassigned [OF a]
    by (simp add: alpha_def mkChild_def isAssignmentTarget_def db_pool_def)
  moreover have "idleView beta \<notin> set (getIdle db_pool)"
    using getIdle_iff_idle_and_unassigned [OF b]
    by (simp add: beta_def mkChild_def isAssignmentTarget_def db_pool_def)
  moreover have "idleView gamma \<notin> set (getIdle db_pool)"
    using getIdle_iff_idle_and_unassigned [OF g]
    by (simp add: gamma_def mkChild_def isAssignmentTarget_def db_pool_def)
  moreover have "idleView blank_agent \<in> set (getIdle db_blank)"
    using getIdle_iff_idle_and_unassigned [OF z]
    by (simp add: blank_agent_def mkChild_def)
  ultimately show ?thesis by blast
qed

text \<open>
  Claim C1 as stated fails: the agent with the empty address is in the result although
  its address is the assignment target of a task whose status is \<open>assigned\<close>.
\<close>

theorem getIdle_blank_address_counterexample:
  "blank_agent \<in> set (children db_blank)
   \<and> \<not> (idleView blank_agent \<in> set (getIdle db_blank) \<longleftrightarrow>
          c_status blank_agent \<in> {''running'', ''healthy''}
          \<and> \<not> isAssignmentTarget db_blank (c_address blank_agent))"
  by (simp add: getIdle_db_blank)
     (simp add: db_blank_def blank_agent_def mkChild_def isAssignmentTarget_def)

text \<open>
  Claim C10. The empty string is never in the busy set of \<open>getIdle\<close>: for every store,
  an agent record whose address is the empty string and whose status is \<open>running\<close> or
  \<open>healthy\<close> is reported idle, whatever the tasks are.
\<close>

theorem getIdle_blank_target_excluded:
  assumes "c \<in> set (children db)" and "c_address c = []"
    and "c_status c = ''running'' \<or> c_status c = ''healthy''"
  shows "[] \<notin> assignedAddresses db \<and> idleView c \<in> set (getIdle db)"
proof -
  have none: "[] \<notin> assignedAddresses db"
    by (simp add: assignedAddresses_eq)
  with assms have "c \<in> set (filter (\<lambda>c. c_status c \<in> IDLE_STATUSES
      \<and> c_address c \<notin> assignedAddresses db) (children db))"
    by (auto simp: IDLE_STATUSES_def)
  then have "idleView c \<in> set (getIdle db)"
    unfolding getIdle_eq set_map by (rule imageI)
  with none show ?thesis by blast
qed

text \<open>The store in which a task with status \<open>assigned\<close> has the empty string as its target.\<close>

theorem getIdle_blank_target_excluded_witness:
  "isAssignmentTarget db_blank (c_address blank_agent)
   \<and> [] \<notin> assignedAddresses db_blank
   \<and> idleView blank_agent \<in> set (getIdle db_blank)"
proof -
  have m: "blank_agent \<in> set (children db_blank)" by (simp add: db_blank_def)
  have e: "c_address blank_agent = []" by (simp add: blank_agent_def mkChild_def)
  have r: "c_status blank_agent = ''running'' \<or> c_status blank_agent = ''healthy''"
    by (simp add: blank_agent_def mkChild_def)
  have t: "isAssignmentTarget db_blank (c_address blank_agent)"
    by (simp add: isAssignmentTarget_def db_blank_def blank_agent_def mkChild_def)
  from t getIdle_blank_target_excluded [OF m e r] show ?thesis by blast
qed

subsection \<open>Selection\<close>

text \<open>
  Claim C6. For every store and every role, \<open>getBestForTask\<close> returns \<open>None\<close> if and
  only if \<open>getIdle\<close> is empty; otherwise it returns the address and the name of the
  first element of \<open>getIdle\<close>. The role has no influence on the result.
\<close>

theorem getBestForTask_first_idle:
  "(getBestForTask db role = None \<longleftrightarrow> getIdle db = [])
   \<and> (getIdle db \<noteq> [] \<longrightarrow>
        getBestForTask db role =
          Some \<lparr>b_address = i_address (hd (getIdle db)), b_name = i_name (hd (getIdle db))\<rparr>)
   \<and> getBestForTask db role = getBestForTask db role'"
  by (cases "getIdle db") (simp_all add: getBestForTask_def Let_def)

theorem getBestForTask_first_idle_witness:
  "getIdle db_pool \<noteq> []
   \<and> getBestForTask db_pool ''auditor'' = Some \<lparr>b_address = ''0xaaa'', b_name = ''alpha''\<rparr>
   \<and> getBestForTask \<lparr>children = [], task_graph = []\<rparr> ''auditor'' = None"
proof -
  have ne: "getIdle db_pool \<noteq> []" by (simp add: getIdle_db_pool)
  have em: "getIdle \<lparr>children = [], task_graph = []\<rparr> = []"
    by (simp add: getIdle_def selectChildren_def)
  from ne have "getBestForTask db_pool ''auditor'' =
      Some \<lparr>b_address = i_address (hd (getIdle db_pool)), b_name = i_name (hd (getIdle db_pool))\<rparr>"
    using getBestForTask_first_idle [of db_pool "''auditor''" "''auditor''"] by blast
  then have "getBestForTask db_pool ''auditor'' = Some \<lparr>b_address = ''0xaaa'', b_name = ''alpha''\<rparr>"
    by (simp add: getIdle_db_pool idleView_def alpha_def mkChild_def)
  moreover from em have "getBestForTask \<lparr>children = [], task_graph = []\<rparr> ''auditor'' = None"
    using getBestForTask_first_idle [of "\<lparr>children = [], task_graph = []\<rparr>" "''auditor''" "''auditor''"]
    by blast
  ultimately show ?thesis using ne by blast
qed

subsection \<open>Status updates\<close>

lemma find_address_Some:
  assumes "address \<in> c_address ` set xs"
  shows "\<exists>child. find (\<lambda>entry. c_address entry = address) xs = Some child
           \<and> child \<in> set xs \<and> c_address child = address"
proof (cases "find (\<lambda>entry. c_address entry = address) xs")
  case None
  with assms show ?thesis by (auto simp: find_None_iff)
next
  case (Some child)
  then show ?thesis by (auto simp: find_Some_iff)
qed

text \<open>
  Claim C8. For every store and every address that no agent record of the store has,
  \<open>updateStatus\<close> returns the store unchanged. When some agent record has the address,
  the status of the first such record \<open>child\<close> is updated through
  \<open>updateChildStatus\<close> with the identifier of \<open>child\<close>, for any status string
  whatever: the record with the new status is in the store afterwards.
\<close>

theorem updateStatus_unknown_address_noop:
  "(address \<notin> c_address ` set (children db) \<longrightarrow> updateStatus db address status = db)
   \<and> (address \<in> c_address ` set (children db) \<longrightarrow>
        (\<exists>child\<in>set (children db). c_address child = address
           \<and> find (\<lambda>entry. c_address entry = address) (children db) = Some child
           \<and> updateStatus db address status = updateChildStatus db (c_id child) status
           \<and> child\<lparr>c_status := status\<rparr> \<in> set (children (updateStatus db address status))
           \<and> task_graph (updateStatus db address status) = task_graph db))"
proof (intro conjI impI)
  assume "address \<notin> c_address ` set (children db)"
  then have "find (\<lambda>entry. c_address entry = address) (children db) = None"
    by (auto simp: find_None_iff)
  then show "updateStatus db address status = db"
    by (simp add: updateStatus_def getChildren_def)
next
  assume "address \<in> c_address ` set (children db)"
  then obtain child where f: "find (\<lambda>entry. c_address entry = address) (children db) = Some child"
    and m: "child \<in> set (children db)" and a: "c_address child = address"
    using find_address_Some by blast
  from f have u: "updateStatus db address status = updateChildStatus db (c_id child) status"
    by (simp add: updateStatus_def getChildren_def)
  from m have "child\<lparr>c_status := status\<rparr> \<in> set (children (updateChildStatus db (c_id child) status))"
    by (force simp: updateChildStatus_def)
  moreover have "task_graph (updateChildStatus db (c_id child) status) = task_graph db"
    by (simp add: updateChildStatus_def)
  ultimately show "\<exists>child\<in>set (children db). c_address child = address
           \<and> find (\<lambda>entry. c_address entry = address) (children db) = Some child
           \<and> updateStatus db address status = updateChildStatus db (c_id child) status
           \<and> child\<lparr>c_status := status\<rparr> \<in> set (children (updateStatus db address status))
           \<and> task_graph (updateStatus db address status) = task_graph db"
    using m a f u by auto
qed

theorem updateStatus_unknown_address_noop_witness:
  "updateStatus db_pool ''0xeee'' ''dead'' = db_pool
   \<and> beta\<lparr>c_status := ''no such status''\<rparr>
        \<in> set (children (updateStatus db_pool ''0xbbb'' ''no such status''))
   \<and> updateStatus db_pool ''0xbbb'' ''no such status'' =
        db_pool\<lparr>children := [gamma, beta\<lparr>c_status := ''no such status''\<rparr>, alpha]\<rparr>"
proof -
  have absent: "''0xeee'' \<notin> c_address ` set (children db_pool)"
    by (simp add: db_pool_def alpha_def beta_def gamma_def mkChild_def)
  have present: "''0xbbb'' \<in> c_address ` set (children db_pool)"
    by (simp add: db_pool_def alpha_def beta_def gamma_def mkChild_def)
  have first: "find (\<lambda>entry. c_address entry = ''0xbbb'') (children db_pool) = Some beta"
    by (simp add: db_pool_def alpha_def beta_def gamma_def mkChild_def)
  from absent have "updateStatus db_pool ''0xeee'' ''dead'' = db_pool"
    using updateStatus_unknown_address_noop [of "''0xeee''" db_pool "''dead''"] by blast
  moreover from present first
  have upd: "updateStatus db_pool ''0xbbb'' ''no such status'' =
      updateChildStatus db_pool (c_id beta) ''no such status''"
    and "beta\<lparr>c_status := ''no such status''\<rparr>
      \<in> set (children (updateStatus db_pool ''0xbbb'' ''no such status''))"
    using updateStatus_unknown_address_noop [of "''0xbbb''" db_pool "''no such status''"] by auto
  moreover have "updateChildStatus db_pool (c_id beta) ''no such status'' =
      db_pool\<lparr>children := [gamma, beta\<lparr>c_status := ''no such status''\<rparr>, alpha]\<rparr>"
    by (simp add: updateChildStatus_def db_pool_def alpha_def beta_def gamma_def mkChild_def)
  ultimately show ?thesis by simp
qed

subsection \<open>Registration\<close>

text \<open>The store accepts an insert exactly when the identifier and the address are new.\<close>

lemma insertChild_accepts_iff:
  "(\<exists>db'. insertChild db c = Inr db') \<longleftrightarrow>
     (c_id c \<notin> c_id ` set (children db) \<and> c_address c \<notin> c_address ` set (children db))"
  by (simp add: insertChild_def)

lemma counter_fresh: "fresh_ids counter_ulid counter_issued"
proof -
  have inj: "\<And>n k. replicate (Suc n) CHR ''0'' = replicate (Suc k) CHR ''0'' \<Longrightarrow> n = k"
    by (metis length_replicate nat.inject)
  show ?thesis
    unfolding fresh_ids_def counter_ulid_def counter_issued_def
    by (auto simp: lessThan_Suc dest: inj)
qed

text \<open>
  No generator whose identifiers have a bounded length, as the 26 characters of a ULID,
  returns a fresh identifier at every call: the identifiers of the successive calls
  would be pairwise distinct, and there are only finitely many strings of a bounded
  length.
\<close>

lemma issued_iterate_mono:
  assumes "fresh_ids ulid issued"
  shows "issued (((\<lambda>g. snd (ulid g)) ^^ j) g) \<subseteq> issued (((\<lambda>g. snd (ulid g)) ^^ (j + d)) g)"
proof (induction d)
  case 0
  show ?case by simp
next
  case (Suc d)
  have "issued (((\<lambda>g. snd (ulid g)) ^^ (j + d)) g)
      \<subseteq> issued (snd (ulid (((\<lambda>g. snd (ulid g)) ^^ (j + d)) g)))"
    using assms unfolding fresh_ids_def by blast
  with Suc show ?case by simp
qed

lemma bounded_generator_not_fresh:
  "\<not> (fresh_ids ulid issued \<and> (\<forall>g. length (fst (ulid g)) \<le> n))"
proof
  assume a: "fresh_ids ulid issued \<and> (\<forall>g. length (fst (ulid g)) \<le> n)"
  then have fresh: "fresh_ids ulid issued" and bound: "\<And>g. length (fst (ulid g)) \<le> n"
    by blast+
  fix g0
  define st where "st k = ((\<lambda>g. snd (ulid g)) ^^ k) g0" for k
  define ident where "ident k = fst (ulid (st k))" for k
  have later: "ident j \<noteq> ident k" if "j < k" for j k
  proof -
    from that obtain d where k: "k = Suc j + d" by (metis less_iff_Suc_add add_Suc)
    have "ident j \<in> issued (st (Suc j))"
      using fresh unfolding fresh_ids_def ident_def st_def by simp
    moreover have "issued (st (Suc j)) \<subseteq> issued (st k)"
      unfolding st_def k by (rule issued_iterate_mono [OF fresh])
    moreover have "ident k \<notin> issued (st k)"
      using fresh unfolding fresh_ids_def ident_def by blast
    ultimately show ?thesis by auto
  qed
  have "inj ident"
  proof (rule injI)
    fix j k assume e: "ident j = ident k"
    show "j = k"
    proof (rule ccontr)
      assume "j \<noteq> k"
      then consider "j < k" | "k < j" by arith
      then show False using later e by cases force+
    qed
  qed
  moreover have "range ident \<subseteq> {xs. set xs \<subseteq> (UNIV :: char set) \<and> length xs \<le> n}"
    using bound by (auto simp: ident_def)
  moreover have "finite {xs. set xs \<subseteq> (UNIV :: char set) \<and> length xs \<le> n}"
    by (rule finite_lists_length_le) simp
  ultimately have "finite (UNIV :: nat set)"
    using finite_subset finite_imageD by blast
  then show False by simp
qed




subsection \<open>Funding\<close>

lemmas promise_defs = resolve_def await_def try_catch_def conway_transferCredits_def
  conway_getCreditsBalance_def getBalance_def

lemma clamp_finite: "Math_max (Num 0) (Math_floor (Num r)) = Num (of_int (max 0 \<lfloor>r\<rfloor>))"
  by (simp add: max_def)

lemma clamp_nonneg_integer:
  "x \<noteq> NaN \<Longrightarrow> x \<noteq> PosInfinity \<Longrightarrow> isNonNegativeInteger (Math_max (Num 0) (Math_floor x))"
  by (cases x) (simp_all add: max_def)

lemma fundChild_zero:
  "strict_equals (Math_max (Num 0) (Math_floor x)) (Num 0) \<Longrightarrow>
     fundChild conway a x w = (Inr \<lparr>f_success = True\<rparr>, w)"
  by (simp add: fundChild_def Let_def resolve_def)

lemma fundChild_calls:
  "\<not> strict_equals (Math_max (Num 0) (Math_floor x)) (Num 0) \<Longrightarrow>
     calls (snd (fundChild conway a x w)) =
       calls w @ [TransferCredits a (Math_max (Num 0) (Math_floor x))
                    ''Task funding from orchestrator'']"
  by (simp add: fundChild_def Let_def promise_defs split: prod.splits sum.splits)

text \<open>
  Claim C4, as amended. For every amount other than NaN and positive infinity, the
  amount \<open>fundChild\<close> computes, \<open>Math.max(0, Math.floor(amountCents))\<close>, is a
  non-negative integer; for a finite amount \<open>r\<close> it is \<open>max 0 \<lfloor>r\<rfloor>\<close>. For every
  amount, when the computed amount equals zero the result is success and the world is
  the one \<open>fundChild\<close> was given (no call to the client); otherwise the one call made
  is the transfer of the computed amount to the child. The amounts 0 and -5 succeed
  without a call.
\<close>

theorem fundChild_clamps_amount:
  "(amountCents \<noteq> NaN \<and> amountCents \<noteq> PosInfinity \<longrightarrow>
      isNonNegativeInteger (Math_max (Num 0) (Math_floor amountCents)))
   \<and> Math_max (Num 0) (Math_floor (Num r)) = Num (of_int (max 0 \<lfloor>r\<rfloor>))
   \<and> (strict_equals (Math_max (Num 0) (Math_floor amountCents)) (Num 0) \<longrightarrow>
        fundChild conway childAddress amountCents w = (Inr \<lparr>f_success = True\<rparr>, w))
   \<and> (\<not> strict_equals (Math_max (Num 0) (Math_floor amountCents)) (Num 0) \<longrightarrow>
        calls (snd (fundChild conway childAddress amountCents w)) =
          calls w @ [TransferCredits childAddress (Math_max (Num 0) (Math_floor amountCents))
                       ''Task funding from orchestrator''])
   \<and> fundChild conway childAddress (Num 0) w = (Inr \<lparr>f_success = True\<rparr>, w)
   \<and> fundChild conway childAddress (Num (- 5)) w = (Inr \<lparr>f_success = True\<rparr>, w)"
proof -
  have zero: "fundChild conway childAddress (Num 0) w = (Inr \<lparr>f_success = True\<rparr>, w)"
    by (rule fundChild_zero) simp
  have minus: "fundChild conway childAddress (Num (- 5)) w = (Inr \<lparr>f_success = True\<rparr>, w)"
    by (rule fundChild_zero) simp
  show ?thesis
    using clamp_nonneg_integer [of amountCents] clamp_finite [of r]
      fundChild_zero [of amountCents conway childAddress w]
      fundChild_calls [of amountCents conway childAddress w] zero minus
    by blast
qed

text \<open>The amount 0.4 is funded without a call; the amount 1500.9 is a transfer of 1500.\<close>

theorem fundChild_clamps_amount_witness:
  "fundChild (scripted_client ''completed'' None) ''0xaaa'' (Num 0.4) (world0 (Num 100)) =
       (Inr \<lparr>f_success = True\<rparr>, world0 (Num 100))
   \<and> calls (snd (fundChild (scripted_client ''completed'' None) ''0xaaa'' (Num 1500.9)
               (world0 (Num 100)))) =
       [TransferCredits ''0xaaa'' (Num 1500) ''Task funding from orchestrator'']
   \<and> isNonNegativeInteger (Num 1500)"
proof -
  have fl: "Math_max (Num 0) (Math_floor (Num 0.4)) = Num 0"
    and fl2: "Math_max (Num 0) (Math_floor (Num 1500.9)) = Num 1500" by simp_all
  have a: "fundChild (scripted_client ''completed'' None) ''0xaaa'' (Num 0.4) (world0 (Num 100)) =
       (Inr \<lparr>f_success = True\<rparr>, world0 (Num 100))"
    using fundChild_clamps_amount [of "Num 0.4" 0 "scripted_client ''completed'' None"
        "''0xaaa''" "world0 (Num 100)"]
    by (simp add: fl)
  have b: "calls (snd (fundChild (scripted_client ''completed'' None) ''0xaaa'' (Num 1500.9)
               (world0 (Num 100)))) =
       [TransferCredits ''0xaaa'' (Num 1500) ''Task funding from orchestrator'']"
    using fundChild_clamps_amount [of "Num 1500.9" 0 "scripted_client ''completed'' None"
        "''0xaaa''" "world0 (Num 100)"]
    by (simp add: fl2 world0_def)
  have c: "isNonNegativeInteger (Num 1500)"
    using fundChild_clamps_amount [of "Num 1500.9" 0 "scripted_client ''completed'' None"
        "''0xaaa''" "world0 (Num 100)"]
    by (simp add: fl2)
  from a b c show ?thesis by blast
qed

text \<open>
  Claim C4 as stated fails at the amount NaN: the computed amount is NaN, which is no
  non-negative integer, and \<open>fundChild\<close> asks the client to transfer it.
\<close>

theorem fundChild_NaN_counterexample:
  "Math_max (Num 0) (Math_floor NaN) = NaN
   \<and> \<not> isNonNegativeInteger NaN
   \<and> fundChild (scripted_client ''completed'' None) ''0xaaa'' NaN (world0 (Num 100)) =
       (Inr \<lparr>f_success = True\<rparr>,
        \<lparr>remote = Num 100,
         calls = [TransferCredits ''0xaaa'' NaN ''Task funding from orchestrator'']\<rparr>)"
proof -
  have "isTransferSuccessful ''completed''" by code_simp
  then show ?thesis
    by (simp add: fundChild_def Let_def promise_defs scripted_client_def world0_def)
qed

subsection \<open>Recall\<close>

lemma recallCredits_zero:
  assumes "getCreditsBalance conway (remote w) = (Inr balance, s1)"
    and "strict_equals (Math_max (Num 0) (Math_floor balance)) (Num 0)"
  shows "recallCredits conway identity childAddress w =
           (Inr \<lparr>rc_success = True, rc_amountCents = Num 0\<rparr>,
            \<lparr>remote = s1, calls = calls w @ [GetCreditsBalance]\<rparr>)"
  using assms by (simp add: recallCredits_def Let_def promise_defs)

lemma recallCredits_transfer:
  assumes "getCreditsBalance conway (remote w) = (Inr balance, s1)"
    and "\<not> strict_equals (Math_max (Num 0) (Math_floor balance)) (Num 0)"
    and "transferCredits conway s1 (identity_address identity)
           (Math_max (Num 0) (Math_floor balance)) (''Recall credits from '' @ childAddress)
         = (outcome, s2)"
  shows "recallCredits conway identity childAddress w =
           ((case outcome of
               Inr result \<Rightarrow>
                 Inr \<lparr>rc_success = isTransferSuccessful (tr_status result),
                      rc_amountCents =
                        (case tr_amountCents result of
                           Some reported \<Rightarrow> reported
                         | None \<Rightarrow> Math_max (Num 0) (Math_floor balance))\<rparr>
             | Inl e \<Rightarrow> Inr \<lparr>rc_success = False, rc_amountCents = Num 0\<rparr>),
            \<lparr>remote = s2,
             calls = calls w @ [GetCreditsBalance,
               TransferCredits (identity_address identity) (Math_max (Num 0) (Math_floor balance))
                 (''Recall credits from '' @ childAddress)]\<rparr>)"
  using assms
  by (simp add: recallCredits_def Let_def promise_defs nullish_def split: sum.splits option.splits)

text \<open>
  Claim C5, as amended. \<open>recallCredits\<close> first queries the balance. When the query
  returns \<open>balance\<close>, the amount is \<open>Math.max(0, Math.floor(balance))\<close>: a
  non-negative integer for every balance other than NaN and positive infinity (250 for
  the balance 250.7). When the amount equals zero the result is success with zero moved,
  and the balance query is the only call made. Otherwise one transfer follows, of that
  amount to the address of the orchestrator's identity; when the transfer returns, the
  success flag is the classification of its status and the amount returned is the amount
  the remote reports when it reports one, else the computed amount.
\<close>

theorem recallCredits_steps:
  assumes "getCreditsBalance conway (remote w) = (Inr balance, s1)"
    and "amountCents = Math_max (Num 0) (Math_floor balance)"
    and "transferCredits conway s1 (identity_address identity) amountCents
           (''Recall credits from '' @ childAddress) = (outcome, s2)"
  shows "(balance \<noteq> NaN \<and> balance \<noteq> PosInfinity \<longrightarrow> isNonNegativeInteger amountCents)
    \<and> Math_max (Num 0) (Math_floor (Num 250.7)) = Num 250
    \<and> (strict_equals amountCents (Num 0) \<longrightarrow>
         recallCredits conway identity childAddress w =
           (Inr \<lparr>rc_success = True, rc_amountCents = Num 0\<rparr>,
            \<lparr>remote = s1, calls = calls w @ [GetCreditsBalance]\<rparr>))
    \<and> (\<not> strict_equals amountCents (Num 0) \<longrightarrow>
         recallCredits conway identity childAddress w =
           ((case outcome of
               Inr result \<Rightarrow>
                 Inr \<lparr>rc_success = isTransferSuccessful (tr_status result),
                      rc_amountCents =
                        (case tr_amountCents result of
                           Some reported \<Rightarrow> reported
                         | None \<Rightarrow> amountCents)\<rparr>
             | Inl e \<Rightarrow> Inr \<lparr>rc_success = False, rc_amountCents = Num 0\<rparr>),
            \<lparr>remote = s2,
             calls = calls w @ [GetCreditsBalance,
               TransferCredits (identity_address identity) amountCents
                 (''Recall credits from '' @ childAddress)]\<rparr>))"
proof -
  have example: "Math_max (Num 0) (Math_floor (Num 250.7)) = Num 250" by simp
  show ?thesis
    using clamp_nonneg_integer [of balance] example
      recallCredits_zero [OF assms(1), of identity childAddress]
      recallCredits_transfer [OF assms(1) _ assms(3) [unfolded assms(2)]]
    unfolding assms(2) by blast
qed

text \<open>
  The balance 250.7 is recalled as a transfer of 250 to the orchestrator; the amount
  returned is 250 when the remote reports none and 200 when it reports 200. The balance
  0 is recalled without a transfer.
\<close>

theorem recallCredits_steps_witness:
  "recallCredits (scripted_client ''completed'' None) orchestrator ''0xaaa'' (world0 (Num 250.7)) =
       (Inr \<lparr>rc_success = True, rc_amountCents = Num 250\<rparr>,
        \<lparr>remote = Num 250.7,
         calls = [GetCreditsBalance,
                  TransferCredits ''0x0rc'' (Num 250) ''Recall credits from 0xaaa'']\<rparr>)
   \<and> recallCredits (scripted_client ''completed'' (Some (Num 200))) orchestrator ''0xaaa''
         (world0 (Num 250.7)) =
       (Inr \<lparr>rc_success = True, rc_amountCents = Num 200\<rparr>,
        \<lparr>remote = Num 250.7,
         calls = [GetCreditsBalance,
                  TransferCredits ''0x0rc'' (Num 250) ''Recall credits from 0xaaa'']\<rparr>)
   \<and> recallCredits (scripted_client ''completed'' None) orchestrator ''0xaaa'' (world0 (Num 0)) =
       (Inr \<lparr>rc_success = True, rc_amountCents = Num 0\<rparr>,
        \<lparr>remote = Num 0, calls = [GetCreditsBalance]\<rparr>)
   \<and> isNonNegativeInteger (Num 250)"
proof -
  have ok: "isTransferSuccessful ''completed''" by code_simp
  have amt: "Num 250 = Math_max (Num 0) (Math_floor (Num 250.7))"
    and amt0: "Num 0 = Math_max (Num 0) (Math_floor (Num 0))" by simp_all
  have bal: "\<And>st rep b. getCreditsBalance (scripted_client st rep) (remote (world0 b)) = (Inr b, b)"
    by (simp add: scripted_client_def world0_def)
  have tr: "\<And>st rep s t a m. transferCredits (scripted_client st rep) s t a m
      = (Inr \<lparr>tr_status = st, tr_amountCents = rep\<rparr>, s)"
    by (simp add: scripted_client_def)
  have a: "recallCredits (scripted_client ''completed'' None) orchestrator ''0xaaa''
         (world0 (Num 250.7)) =
       (Inr \<lparr>rc_success = True, rc_amountCents = Num 250\<rparr>,
        \<lparr>remote = Num 250.7,
         calls = [GetCreditsBalance,
                  TransferCredits ''0x0rc'' (Num 250) ''Recall credits from 0xaaa'']\<rparr>)"
    using recallCredits_steps [where identity = orchestrator and childAddress = "''0xaaa''",
        OF bal amt tr] ok
    by (simp add: world0_def orchestrator_def)
  have b: "recallCredits (scripted_client ''completed'' (Some (Num 200))) orchestrator ''0xaaa''
         (world0 (Num 250.7)) =
       (Inr \<lparr>rc_success = True, rc_amountCents = Num 200\<rparr>,
        \<lparr>remote = Num 250.7,
         calls = [GetCreditsBalance,
                  TransferCredits ''0x0rc'' (Num 250) ''Recall credits from 0xaaa'']\<rparr>)"
    using recallCredits_steps [where identity = orchestrator and childAddress = "''0xaaa''",
        OF bal amt tr] ok
    by (simp add: world0_def orchestrator_def)
  have c: "recallCredits (scripted_client ''completed'' None) orchestrator ''0xaaa''
         (world0 (Num 0)) =
       (Inr \<lparr>rc_success = True, rc_amountCents = Num 0\<rparr>,
        \<lparr>remote = Num 0, calls = [GetCreditsBalance]\<rparr>)"
    using recallCredits_steps [where identity = orchestrator and childAddress = "''0xaaa''",
        OF bal amt0 tr]
    by (simp add: world0_def)
  have d: "isNonNegativeInteger (Num 250)"
    using recallCredits_steps [where identity = orchestrator and childAddress = "''0xaaa''",
        OF bal amt tr]
    by simp
  from a b c d show ?thesis by blast
qed

text \<open>
  Claim C5 as stated fails at the balance NaN: the computed amount is NaN, which is no
  non-negative integer, and \<open>recallCredits\<close> asks the client to transfer it.
\<close>

theorem recallCredits_NaN_counterexample:
  "Math_max (Num 0) (Math_floor NaN) = NaN
   \<and> \<not> isNonNegativeInteger NaN
   \<and> recallCredits (scripted_client ''completed'' None) orchestrator ''0xaaa'' (world0 NaN) =
       (Inr \<lparr>rc_success = True, rc_amountCents = NaN\<rparr>,
        \<lparr>remote = NaN,
         calls = [GetCreditsBalance,
                  TransferCredits ''0x0rc'' NaN ''Recall credits from 0xaaa'']\<rparr>)"
proof -
  have "isTransferSuccessful ''completed''" by code_simp
  then show ?thesis
    by (simp add: recallCredits_def Let_def promise_defs scripted_client_def world0_def
        orchestrator_def nullish_def)
qed

subsection \<open>Exceptions of the remote client\<close>

text \<open>\<open>fundChild\<close> never rejects: the one call it makes is inside the \<^verbatim>\<open>try\<close>.\<close>

lemma fundChild_never_rejects: "\<exists>r. fst (fundChild conway a x w) = Inr r"
  by (simp add: fundChild_def Let_def promise_defs split: prod.splits sum.splits)

lemma fundChild_transfer_raises:
  "\<not> strict_equals (Math_max (Num 0) (Math_floor x)) (Num 0) \<Longrightarrow>
   fst (transferCredits conway (remote w) a (Math_max (Num 0) (Math_floor x))
          ''Task funding from orchestrator'') = Inl e \<Longrightarrow>
   fst (fundChild conway a x w) = Inr \<lparr>f_success = False\<rparr>"
  by (auto simp add: fundChild_def Let_def promise_defs split: prod.splits sum.splits if_splits)

text \<open>
  \<open>recallCredits\<close> rejects exactly when the balance query raises: the query stands
  before the \<^verbatim>\<open>try\<close>, the transfer inside it.
\<close>

lemma recallCredits_rejects_iff:
  "(\<exists>e. fst (recallCredits conway identity a w) = Inl e) \<longleftrightarrow>
     (\<exists>e. fst (getCreditsBalance conway (remote w)) = Inl e)"
  by (auto simp add: recallCredits_def Let_def promise_defs
      split: prod.splits sum.splits if_splits)

text \<open>
  Claim C2, at the input where the code departs from it. With a client that cannot be
  reached, the balance query of \<open>recallCredits\<close> raises and the exception escapes:
  the outcome is the exception, not a result with the success flag false and the amount
  zero.
\<close>

theorem recallCredits_balance_exception_escapes:
  "recallCredits offline_client orchestrator ''0xaaa'' (world0 (Num 100)) =
     (Inl (Exn ''ECONNREFUSED''), \<lparr>remote = Num 100, calls = [GetCreditsBalance]\<rparr>)"
  by (simp add: recallCredits_def promise_defs offline_client_def world0_def)

subsection \<open>The balance query\<close>

text \<open>
  Claim C9. For any two addresses and the same client in the same world,
  \<open>getBalance\<close> has the same outcome and leaves the same world: the address is not
  read, and the query sent to the client carries none.
\<close>

theorem getBalance_ignores_address:
  "getBalance conway a w = getBalance conway b w"
  by (simp add: getBalance_def)

end
